theory Spec2Isabelle
  imports Main "HOL-Library.AList"
begin

section \<open>Strings, paths and headers used by the proxy\<close>

text \<open>
  Go strings are byte sequences; they are modelled as \<^typ>\<open>string\<close>. The functions of
  this section are the Go standard library functions that \<open>proxy/main.go\<close> calls,
  written out from their documented behaviour.
\<close>

text \<open>\<open>strings.Trim(s, cutset)\<close>: all leading and trailing bytes of \<open>cutset\<close> removed.\<close>

definition Trim :: "string \<Rightarrow> string \<Rightarrow> string" where
  "Trim s cutset =
     rev (dropWhile (\<lambda>c. c \<in> set cutset) (rev (dropWhile (\<lambda>c. c \<in> set cutset) s)))"

text \<open>
  \<open>path.Ext(p)\<close>: the loop runs from the last byte towards the first, stops at a slash
  and returns the suffix that starts at the first dot it meets. The first argument is the
  part of the path not yet visited, reversed; the second is the suffix already visited.
\<close>

fun ext_scan :: "string \<Rightarrow> string \<Rightarrow> string" where
  "ext_scan [] suffix = []"
| "ext_scan (c # cs) suffix =
     (if c = CHR ''/'' then []
      else if c = CHR ''.'' then c # suffix
      else ext_scan cs (c # suffix))"

definition path_Ext :: "string \<Rightarrow> string" where
  "path_Ext p = ext_scan (rev p) []"

text \<open>
  \<open>strings.SplitN(s, ":", 2)\<close>: at most two pieces, cut at the first colon; a string
  without a colon is returned as the only piece.
\<close>

definition SplitN_colon_2 :: "string \<Rightarrow> string list" where
  "SplitN_colon_2 s =
     (if CHR '':'' \<in> set s
      then [takeWhile (\<lambda>c. c \<noteq> CHR '':'') s, tl (dropWhile (\<lambda>c. c \<noteq> CHR '':'') s)]
      else [s])"

text \<open>
  \<open>fmt.Sprintf("%0wd", n)\<close> for a number that is not negative: the decimal digits,
  padded with zeros on the left up to width \<open>w\<close>, never cut.
\<close>

fun decimal :: "nat \<Rightarrow> string" where
  "decimal n =
     (if n < 10 then [''0123456789'' ! n]
      else decimal (n div 10) @ [''0123456789'' ! (n mod 10)])"

declare decimal.simps [simp del]

definition zero_pad :: "nat \<Rightarrow> nat \<Rightarrow> string" where
  "zero_pad w n = replicate (w - length (decimal n)) (CHR ''0'') @ decimal n"

subsection \<open>\<open>http.Header\<close>\<close>

text \<open>
  A header is a Go map from keys to lists of values. It is kept as an association list
  whose order stands for the order in which one \<open>range\<close> loop happens to visit the map;
  the keys of a well-formed header are distinct.
\<close>

type_synonym header = "(string \<times> string list) list"

definition wf_header :: "header \<Rightarrow> bool" where
  "wf_header h = distinct (map fst h)"

text \<open>
  \<open>textproto.CanonicalMIMEHeaderKey\<close>: the first letter and every letter after a hyphen
  in upper case, all other letters in lower case; a key holding a byte that is not allowed
  in a header field name is returned as it is.
\<close>

definition validHeaderFieldByte :: "char \<Rightarrow> bool" where
  "validHeaderFieldByte c =
     (c \<in> set ''abcdefghijklmnopqrstuvwxyzABCDEFGHIJKLMNOPQRSTUVWXYZ0123456789''
      \<or> c \<in> set [CHR ''!'', CHR ''#'', CHR ''$'', CHR ''%'', CHR ''&'', CHR 0x27, CHR ''*'',
                   CHR ''+'', CHR ''-'', CHR ''.'', CHR ''^'', CHR ''_'', CHR 0x60, CHR ''|'',
                   CHR ''~''])"

definition to_upper :: "char \<Rightarrow> char" where
  "to_upper c =
     (case map_of (zip ''abcdefghijklmnopqrstuvwxyz'' ''ABCDEFGHIJKLMNOPQRSTUVWXYZ'') c of
        None \<Rightarrow> c | Some u \<Rightarrow> u)"

definition to_lower :: "char \<Rightarrow> char" where
  "to_lower c =
     (case map_of (zip ''ABCDEFGHIJKLMNOPQRSTUVWXYZ'' ''abcdefghijklmnopqrstuvwxyz'') c of
        None \<Rightarrow> c | Some l \<Rightarrow> l)"

fun canonical_letters :: "bool \<Rightarrow> string \<Rightarrow> string" where
  "canonical_letters upper [] = []"
| "canonical_letters upper (c # cs) =
     (if upper then to_upper c else to_lower c) # canonical_letters (c = CHR ''-'') cs"

definition CanonicalMIMEHeaderKey :: "string \<Rightarrow> string" where
  "CanonicalMIMEHeaderKey s =
     (if \<forall>c \<in> set s. validHeaderFieldByte c then canonical_letters True s else s)"

text \<open>\<open>h[key]\<close>: the values stored under a key, none when the key is absent.\<close>

definition Header_values :: "header \<Rightarrow> string \<Rightarrow> string list" where
  "Header_values h key = (case map_of h key of None \<Rightarrow> [] | Some vv \<Rightarrow> vv)"

text \<open>\<open>h.Get(key)\<close>: the first value under the canonical key, or the empty string.\<close>

definition Header_Get :: "header \<Rightarrow> string \<Rightarrow> string" where
  "Header_Get h key =
     (case Header_values h (CanonicalMIMEHeaderKey key) of [] \<Rightarrow> [] | v # _ \<Rightarrow> v)"

text \<open>\<open>h.Del(key)\<close>: the entry under the canonical key removed.\<close>

definition Header_Del :: "string \<Rightarrow> header \<Rightarrow> header" where
  "Header_Del key h = AList.delete (CanonicalMIMEHeaderKey key) h"

text \<open>\<open>h.Add(key, value)\<close>: the value appended to the list under the canonical key.\<close>

definition Header_Add :: "string \<Rightarrow> string \<Rightarrow> header \<Rightarrow> header" where
  "Header_Add key v h =
     AList.update (CanonicalMIMEHeaderKey key)
       (Header_values h (CanonicalMIMEHeaderKey key) @ [v]) h"

text \<open>
  \<open>copyHeader(dst, src)\<close>. The first loop ranges over the keys of \<open>dst\<close> and deletes
  each; an entry that an earlier deletion already removed is not visited by Go, and
  deleting it again changes nothing. The second loop adds every value of every entry of
  \<open>src\<close>.
\<close>

definition copyHeader :: "header \<Rightarrow> header \<Rightarrow> header" where
  "copyHeader dst src =
     fold (\<lambda>(k, vv) d. fold (\<lambda>v d'. Header_Add k v d') vv d) src
       (fold (\<lambda>k d. Header_Del k d) (map fst dst) dst)"

section \<open>The data model\<close>

text \<open>
  \<open>url.URL\<close>, \<open>http.Request\<close> and \<open>http.Response\<close>, with the fields the proxy reads or
  writes. A body is the sequence of chunks that successive reads return; \<open>None\<close> is
  the nil body. The request of a response and the URL of a request are pointers that the
  transport and the server always set; they are modelled as the values they point to.
\<close>

record url =
  url_Scheme :: string
  url_Host :: string
  url_Path :: string

record request =
  req_Method :: string
  req_URL :: url
  req_Proto :: string
  req_ProtoMajor :: int
  req_ProtoMinor :: int
  req_Header :: header
  req_Body :: "string list option"
  req_Close :: bool
  req_Host :: string
  req_RemoteAddr :: string

record response =
  res_StatusCode :: int
  res_Header :: header
  res_Body :: "string list option"
  res_Request :: request

text \<open>
  What the path resolver takes from outside \<open>proxy/main.go\<close>: the package variables
  \<open>ArchiveDir\<close> and \<open>ClientDir\<close>, the platform's path separator \<open>PS\<close>, and the function
  \<open>mimext.Ext\<close> of the repository's \<open>mimext\<close> package, whose source is not at hand.
\<close>

record env =
  ArchiveDir :: string
  ClientDir :: string
  PS :: string
  mimext_Ext :: "string \<Rightarrow> string"

text \<open>The local time that \<open>time.Now().Local()\<close> returns, broken down as \<open>now\<close> reads it.\<close>

record localtime =
  Year :: nat
  Month :: nat
  Day :: nat
  Hour :: nat
  Minute :: nat
  Second :: nat
  Nanosecond :: nat

section \<open>The path resolver\<close>

text \<open>The stem both resolvers start from: the URL path without its outer slashes, or \<open>index\<close>.\<close>

definition stem :: "response \<Rightarrow> string" where
  "stem res =
     (let file = Trim (url_Path (req_URL (res_Request res))) ''/''
      in if file = [] then ''index'' else file)"

definition ArchiveFile :: "env \<Rightarrow> response \<Rightarrow> string" where
  "ArchiveFile e res =
     (let contentType = Header_Get (res_Header res) ''Content-Type'';
          file = stem res;
          file = (if path_Ext file = [] then file @ ''.'' @ mimext_Ext e contentType else file);
          file = (if Header_Get (res_Header res) ''Content-Encoding'' = ''gzip''
                  then file @ ''.gz'' else file)
      in ArchiveDir e @ PS e @ url_Host (req_URL (res_Request res)) @ PS e @ file)"

definition now :: "localtime \<Rightarrow> string" where
  "now t =
     zero_pad 4 (Year t) @ zero_pad 2 (Month t) @ zero_pad 2 (Day t) @ ''-''
     @ zero_pad 2 (Hour t) @ zero_pad 2 (Minute t) @ zero_pad 2 (Second t) @ ''-''
     @ zero_pad 9 (Nanosecond t) @ ''.bin''"

text \<open>
  \<open>ClientFile\<close> indexes the result of \<open>SplitN\<close> at 0; an index out of range would be a
  run-time panic, which is the value \<open>None\<close>.
\<close>

definition ClientFile :: "env \<Rightarrow> localtime \<Rightarrow> response \<Rightarrow> string option" where
  "ClientFile e t res =
     (let file = stem res;
          clientAddr = SplitN_colon_2 (req_RemoteAddr (res_Request res))
      in case clientAddr of
           [] \<Rightarrow> None
         | host # _ \<Rightarrow>
             Some (ClientDir e @ PS e @ host @ PS e @ url_Host (req_URL (res_Request res))
                   @ PS e @ file @ PS e @ now t))"

section \<open>Writers, sinks and the client's response writer\<close>

text \<open>
  An \<open>io.Writer\<close> as the interceptor sees it: the bytes it has accepted, how many bytes it
  can hold before a write fails (\<open>None\<close>: it never fails), and how often \<open>Close\<close> was
  called on it. A Sink is such an object; so is the body channel of the client's
  response writer, on which nothing calls \<open>Close\<close>.
\<close>

record wobj =
  received :: string
  quota :: "nat option"
  closes :: nat

text \<open>
  \<open>w.Write(p)\<close>: the new object and whether the write succeeded. A write that does not
  fit stores the bytes that fit and returns an error.
\<close>

definition Write :: "string \<Rightarrow> wobj \<Rightarrow> wobj \<times> bool" where
  "Write p w =
     (case quota w of
        None \<Rightarrow> (w\<lparr>received := received w @ p\<rparr>, True)
      | Some q \<Rightarrow>
          if length (received w) + length p \<le> q
          then (w\<lparr>received := received w @ p\<rparr>, True)
          else (w\<lparr>received := received w @ take (q - length (received w)) p\<rparr>, False))"

definition Close :: "wobj \<Rightarrow> wobj" where
  "Close w = w\<lparr>closes := Suc (closes w)\<rparr>"

text \<open>
  \<open>http.ResponseWriter\<close>: the header map that \<open>Header()\<close> returns, the status and the
  header sent by the first \<open>WriteHeader\<close>, and the body channel.
\<close>

record ResponseWriter =
  rw_Header :: header
  rw_sent :: "(int \<times> header) option"
  rw_out :: wobj

definition WriteHeader :: "int \<Rightarrow> ResponseWriter \<Rightarrow> ResponseWriter" where
  "WriteHeader code w =
     (case rw_sent w of
        None \<Rightarrow> w\<lparr>rw_sent := Some (code, rw_Header w)\<rparr>
      | Some _ \<Rightarrow> w)"

text \<open>
  \<open>io.MultiWriter(writers...).Write(p)\<close>: the writers are written one at a time, in
  order; the first one that fails ends the write, and the ones after it are not written.
\<close>

fun multi_Write :: "string \<Rightarrow> wobj list \<Rightarrow> wobj list \<times> bool" where
  "multi_Write p [] = ([], True)"
| "multi_Write p (w # ws) =
     (case Write p w of
        (w', False) \<Rightarrow> (w' # ws, False)
      | (w', True) \<Rightarrow> (case multi_Write p ws of (ws', ok) \<Rightarrow> (w' # ws', ok)))"

text \<open>
  \<open>io.Copy(io.MultiWriter(writers...), body)\<close>: each chunk read is written to the
  multi-writer, an empty read writes nothing, and the first failed write ends the copy.
  The result is the writers and the chunks left unread.
\<close>

fun io_Copy :: "wobj list \<Rightarrow> string list \<Rightarrow> wobj list \<times> string list" where
  "io_Copy ws [] = (ws, [])"
| "io_Copy ws (c # cs) =
     (if c = [] then io_Copy ws cs
      else case multi_Write c ws of
             (ws', True) \<Rightarrow> io_Copy ws' cs
           | (ws', False) \<Rightarrow> (ws', cs))"

section \<open>The proxy and its hooks\<close>

text \<open>
  A hook receives the pointer to the response, so it returns the response as it has left
  it. A Director and a Logger also return an error (\<open>None\<close>: nil), a Writer returns a
  Sink (\<open>None\<close>: nil).
\<close>

type_synonym Director = "response \<Rightarrow> response \<times> string option"
type_synonym Writer = "response \<Rightarrow> response \<times> wobj option"
type_synonym Logger = "response \<Rightarrow> response \<times> string option"

record Proxy =
  Bind :: string
  Writers :: "Writer list"
  Directors :: "Director list"
  Loggers :: "Logger list"

text \<open>The calls an exchange makes, in the order it makes them.\<close>

datatype event =
    CallDirector nat
  | CopyHeader
  | CallWriteHeader
  | CallWriter nat
  | CallLogger nat
  | CopyBody
  | CloseBody
  | CloseSink nat

datatype panic = TransportError string | NilBody

text \<open>The state of one exchange inside \<open>intercept\<close>.\<close>

record conn =
  client :: ResponseWriter
  res :: response
  wclosers :: "wobj list"
  trace :: "event list"

text \<open>The three hook loops; the first argument is the loop index \<open>i\<close>.\<close>

fun apply_Directors :: "nat \<Rightarrow> Director list \<Rightarrow> conn \<Rightarrow> conn" where
  "apply_Directors i [] s = s"
| "apply_Directors i (d # ds) s =
     apply_Directors (Suc i) ds
       (s\<lparr>res := fst (d (res s)), trace := trace s @ [CallDirector i]\<rparr>)"

fun apply_Writers :: "nat \<Rightarrow> Writer list \<Rightarrow> conn \<Rightarrow> conn" where
  "apply_Writers i [] s = s"
| "apply_Writers i (w # ws) s =
     apply_Writers (Suc i) ws
       (case w (res s) of
          (r, None) \<Rightarrow> s\<lparr>res := r, trace := trace s @ [CallWriter i]\<rparr>
        | (r, Some wcloser) \<Rightarrow>
            s\<lparr>res := r, wclosers := wclosers s @ [wcloser],
              trace := trace s @ [CallWriter i]\<rparr>)"

fun apply_Loggers :: "nat \<Rightarrow> Logger list \<Rightarrow> conn \<Rightarrow> conn" where
  "apply_Loggers i [] s = s"
| "apply_Loggers i (l # ls) s =
     apply_Loggers (Suc i) ls
       (s\<lparr>res := fst (l (res s)), trace := trace s @ [CallLogger i]\<rparr>)"

text \<open>Lines 219 to 245 of \<open>intercept\<close>: Directors, headers, status, Writers, Loggers.\<close>

definition run_hooks :: "Proxy \<Rightarrow> ResponseWriter \<Rightarrow> response \<Rightarrow> conn" where
  "run_hooks self dst r =
     (let s = \<lparr>client = dst, res = r, wclosers = [], trace = []\<rparr>;
          s = apply_Directors 0 (Directors self) s;
          s = s\<lparr>client := (client s)\<lparr>rw_Header :=
                   copyHeader (rw_Header (client s)) (res_Header (res s))\<rparr>,
                trace := trace s @ [CopyHeader]\<rparr>;
          s = s\<lparr>client := WriteHeader (res_StatusCode (res s)) (client s),
                trace := trace s @ [CallWriteHeader]\<rparr>;
          s = apply_Writers 0 (Writers self) s
      in apply_Loggers 0 (Loggers self) s)"

text \<open>
  Lines 247 to 254: the writers are the client followed by the Sinks, and the body is
  copied to all of them at once. \<open>io_Copy\<close> returns as many writers as it is given,
  so its result always has the client's writer at the head.
\<close>

definition fan_out :: "conn \<Rightarrow> string list \<Rightarrow> conn" where
  "fan_out s chunks =
     (case io_Copy (rw_out (client s) # wclosers s) chunks of
        (dst' # sinks', unread) \<Rightarrow>
          s\<lparr>client := (client s)\<lparr>rw_out := dst'\<rparr>, wclosers := sinks',
            res := (res s)\<lparr>res_Body := Some unread\<rparr>, trace := trace s @ [CopyBody]\<rparr>
      | ([], unread) \<Rightarrow> s)"

text \<open>Lines 259 to 261: every Sink is closed.\<close>

definition close_wclosers :: "conn \<Rightarrow> conn" where
  "close_wclosers s =
     s\<lparr>wclosers := map Close (wclosers s),
       trace := trace s @ map CloseSink [0..<length (wclosers s)]\<rparr>"

text \<open>
  \<open>intercept\<close>. The copy is guarded by \<open>res.Body != nil\<close>; \<open>res.Body.Close()\<close> is not,
  and calling a method of a nil interface value panics. The result is the state reached
  and the panic, if any.
\<close>

definition intercept :: "Proxy \<Rightarrow> ResponseWriter \<Rightarrow> response \<Rightarrow> conn \<times> panic option" where
  "intercept self dst r =
     (let s = run_hooks self dst r
      in case res_Body (res s) of
           None \<Rightarrow> (s, Some NilBody)
         | Some chunks \<Rightarrow>
             (let s = fan_out s chunks;
                  s = s\<lparr>trace := trace s @ [CloseBody]\<rparr>
              in (close_wclosers s, None)))"

text \<open>
  Lines 125 to 138 of \<open>ServeHTTP\<close>: the request handed to the transport. \<open>*out = *req\<close>
  copies the fields; the URL and the header map stay shared with \<open>req\<close>, which does not
  matter for what \<open>out\<close> holds.
\<close>

definition outbound :: "request \<Rightarrow> request" where
  "outbound req =
     req\<lparr>req_Proto := ''HTTP/1.1'', req_ProtoMajor := 1, req_ProtoMinor := 1,
         req_Close := False,
         req_URL := (req_URL req)\<lparr>url_Scheme := ''http'', url_Host := req_Host req\<rparr>,
         req_Header := Header_Add ''Host'' (req_Host req) (req_Header req)\<rparr>"

text \<open>
  \<open>ServeHTTP\<close>, with \<open>http.DefaultTransport.RoundTrip\<close> as a parameter that returns an
  error or a response. The result is the client's response writer, the calls made, and the
  panic, if any.
\<close>

definition ServeHTTP ::
  "Proxy \<Rightarrow> (request \<Rightarrow> string + response) \<Rightarrow> ResponseWriter \<Rightarrow> request
     \<Rightarrow> ResponseWriter \<times> event list \<times> panic option" where
  "ServeHTTP self RoundTrip wri req =
     (case RoundTrip (outbound req) of
        Inl err \<Rightarrow> (wri, [], Some (TransportError err))
      | Inr r \<Rightarrow> (case intercept self wri r of (s, p) \<Rightarrow> (client s, trace s, p)))"

section \<open>The server that \<open>Start\<close> runs\<close>

text \<open>
  \<open>Start\<close> installs the proxy as the handler of an \<open>http.Server\<close> and calls
  \<open>ListenAndServe\<close>. The state of the server process: whether it is still serving, the
  panics its error log holds, and for every connection served what the client's response
  writer has become and which calls the exchange made.
\<close>

record process =
  alive :: bool
  errorlog :: "panic list"
  exchanges :: "(ResponseWriter \<times> event list) list"

text \<open>
  The standard library serves each connection in a goroutine of its own and runs the
  handler under a deferred \<open>recover\<close>: a panic of \<open>ServeHTTP\<close> is taken to concern the
  active request only, it is logged and the connection is closed. The result is the
  exchange, the panics logged, and the panic that leaves the goroutine, which is none.
\<close>

definition conn_serve ::
  "Proxy \<Rightarrow> (request \<Rightarrow> string + response) \<Rightarrow> ResponseWriter \<Rightarrow> request
     \<Rightarrow> (ResponseWriter \<times> event list) \<times> panic list \<times> panic option" where
  "conn_serve self RoundTrip wri req =
     (case ServeHTTP self RoundTrip wri req of
        (w, tr, None) \<Rightarrow> ((w, tr), [], None)
      | (w, tr, Some p) \<Rightarrow> ((w, tr), [p], None))"

text \<open>
  \<open>ListenAndServe\<close> on the connections that arrive, one after the other. A panic that
  left a goroutine would end the process, and the connections after it would not be
  served.
\<close>

fun ListenAndServe ::
  "Proxy \<Rightarrow> (request \<Rightarrow> string + response) \<Rightarrow> (ResponseWriter \<times> request) list
     \<Rightarrow> process \<Rightarrow> process" where
  "ListenAndServe self RoundTrip [] pr = pr"
| "ListenAndServe self RoundTrip ((wri, req) # conns) pr =
     (if \<not> alive pr then pr
      else case conn_serve self RoundTrip wri req of
             (ex, logged, escaped) \<Rightarrow>
               ListenAndServe self RoundTrip conns
                 (pr\<lparr>alive := (escaped = None), errorlog := errorlog pr @ logged,
                     exchanges := exchanges pr @ [ex]\<rparr>))"

text \<open>
  \<open>Start\<close>: the flag says whether binding the address succeeds; when it fails,
  \<open>ListenAndServe\<close> returns the error at once and nothing is served.
\<close>

definition Start ::
  "Proxy \<Rightarrow> (request \<Rightarrow> string + response) \<Rightarrow> bool \<Rightarrow> (ResponseWriter \<times> request) list
     \<Rightarrow> process" where
  "Start self RoundTrip bound conns =
     (if bound
      then ListenAndServe self RoundTrip conns \<lparr>alive = True, errorlog = [], exchanges = []\<rparr>
      else \<lparr>alive = False, errorlog = [], exchanges = []\<rparr>)"

text \<open>
  The exchange a connection gets when it is served: the client's response writer and the
  calls made, as \<open>ServeHTTP\<close> leaves them.
\<close>

definition handled ::
  "Proxy \<Rightarrow> (request \<Rightarrow> string + response) \<Rightarrow> ResponseWriter \<times> request
     \<Rightarrow> ResponseWriter \<times> event list" where
  "handled self RoundTrip c =
     (case c of (wri, req) \<Rightarrow>
        (case ServeHTTP self RoundTrip wri req of (w, tr, p) \<Rightarrow> (w, tr)))"

section \<open>The head-only Writer of package \<open>save\<close>\<close>

text \<open>
  The file system as \<open>save.Head\<close> uses it: the directories that exist, the files with
  their contents and the number of open handles on each, and the paths that the
  operating system refuses to create.
\<close>

record fnode =
  content :: string
  handles :: nat

record filesystem =
  fs_dirs :: "string list"
  fs_files :: "(string \<times> fnode) list"
  fs_denied :: "string \<Rightarrow> bool"

text \<open>
  Two standard library functions are parameters: \<open>path.Dir\<close>, and the wire form that
  \<open>Header.Write\<close> gives a header.
\<close>

record lib =
  path_Dir :: "string \<Rightarrow> string"
  Header_Write :: "header \<Rightarrow> string"

text \<open>\<open>proxy.Workdir(dir)\<close>, that is \<open>os.MkdirAll\<close>: the new file system and whether it succeeded.\<close>

definition Workdir :: "string \<Rightarrow> filesystem \<Rightarrow> filesystem \<times> bool" where
  "Workdir dir fs =
     (if fs_denied fs dir then (fs, False)
      else (fs\<lparr>fs_dirs := List.insert dir (fs_dirs fs)\<rparr>, True))"

text \<open>
  \<open>os.Create(name)\<close>: the file is created or truncated and opened when its directory
  exists and the path is not refused; the flag is \<open>fp != nil\<close>.
\<close>

definition os_Create :: "lib \<Rightarrow> string \<Rightarrow> filesystem \<Rightarrow> filesystem \<times> bool" where
  "os_Create l name fs =
     (if path_Dir l name \<in> set (fs_dirs fs) \<and> \<not> fs_denied fs name
      then (fs\<lparr>fs_files := AList.update name
                 \<lparr>content = [],
                  handles = Suc (case map_of (fs_files fs) name of
                                   None \<Rightarrow> 0 | Some f \<Rightarrow> handles f)\<rparr>
                 (fs_files fs)\<rparr>, True)
      else (fs, False))"

definition file_Write :: "string \<Rightarrow> string \<Rightarrow> filesystem \<Rightarrow> filesystem" where
  "file_Write name p fs =
     fs\<lparr>fs_files := AList.map_entry name (\<lambda>f. f\<lparr>content := content f @ p\<rparr>) (fs_files fs)\<rparr>"

definition file_Close :: "string \<Rightarrow> filesystem \<Rightarrow> filesystem" where
  "file_Close name fs =
     fs\<lparr>fs_files := AList.map_entry name (\<lambda>f. f\<lparr>handles := handles f - 1\<rparr>) (fs_files fs)\<rparr>"

text \<open>\<open>save.Head\<close>: the file system it leaves and the Sink it returns.\<close>

definition Head :: "env \<Rightarrow> lib \<Rightarrow> filesystem \<Rightarrow> response \<Rightarrow> filesystem \<times> wobj option" where
  "Head e l fs r =
     (let file = ArchiveFile e r @ ''.head'';
          fs = fst (Workdir (path_Dir l file) fs)
      in case os_Create l file fs of
           (fs, True) \<Rightarrow>
             (file_Close file (file_Write file (Header_Write l (res_Header r)) fs), None)
         | (fs, False) \<Rightarrow> (fs, None))"

section \<open>Example exchanges\<close>

definition example_env :: env where
  "example_env =
     \<lparr>ArchiveDir = ''archive'', ClientDir = ''client'', PS = ''/'',
      mimext_Ext = (\<lambda>ct. if ct = ''text/html'' then ''html'' else [])\<rparr>"

definition example_time :: localtime where
  "example_time =
     \<lparr>Year = 2024, Month = 1, Day = 2, Hour = 3, Minute = 4, Second = 5, Nanosecond = 6\<rparr>"

definition example_request :: request where
  "example_request =
     \<lparr>req_Method = ''GET'',
      req_URL = \<lparr>url_Scheme = [], url_Host = [], url_Path = ''/a/b''\<rparr>,
      req_Proto = ''HTTP/1.0'', req_ProtoMajor = 1, req_ProtoMinor = 0,
      req_Header = [], req_Body = None, req_Close = True,
      req_Host = ''example.com'', req_RemoteAddr = ''[::1]:54321''\<rparr>"

definition example_response :: response where
  "example_response =
     \<lparr>res_StatusCode = 200, res_Header = [],
      res_Body = Some [''ab'', ''cd''],
      res_Request = outbound example_request\<rparr>"

definition example_client :: ResponseWriter where
  "example_client =
     \<lparr>rw_Header = [], rw_sent = None,
      rw_out = \<lparr>received = [], quota = None, closes = 0\<rparr>\<rparr>"

text \<open>
  Directors \<open>[D1, D2]\<close>, Writers \<open>[W1, W2]\<close>, Loggers \<open>[L1]\<close>: \<open>W1\<close> returns a Sink that
  holds one byte, \<open>W2\<close> returns none.
\<close>

definition example_Proxy :: Proxy where
  "example_Proxy =
     \<lparr>Bind = ''0.0.0.0:9999'',
      Writers = [\<lambda>r. (r, Some \<lparr>received = [], quota = Some 1, closes = 0\<rparr>),
                 \<lambda>r. (r, None)],
      Directors = [\<lambda>r. (r, None), \<lambda>r. (r, None)],
      Loggers = [\<lambda>r. (r, None)]\<rparr>"

definition example_filesystem :: filesystem where
  "example_filesystem = \<lparr>fs_dirs = [], fs_files = [], fs_denied = (\<lambda>p. False)\<rparr>"

definition example_lib :: lib where
  "example_lib =
     \<lparr>path_Dir = (\<lambda>p. rev (tl (dropWhile (\<lambda>c. c \<noteq> CHR ''/'') (rev p)))),
      Header_Write = (\<lambda>h. concat (map (\<lambda>(k, vv). concat (map (\<lambda>v. k @ '': '' @ v @ ''; '') vv)) h))\<rparr>"

definition other_response :: response where
  "other_response =
     \<lparr>res_StatusCode = 404, res_Header = [(''Server'', [''x''])], res_Body = None,
      res_Request = (outbound example_request)
        \<lparr>req_Method := ''POST'', req_RemoteAddr := ''10.0.0.1:4000''\<rparr>\<rparr>"

text \<open>
  A transport that cannot resolve the host \<open>down.example\<close> and answers every other
  request with status 200 and the body \<open>ok\<close>; a request for the host it cannot resolve.
\<close>

definition example_transport :: "request \<Rightarrow> string + response" where
  "example_transport out =
     (if url_Host (req_URL out) = ''down.example'' then Inl ''no such host''
      else Inr \<lparr>res_StatusCode = 200, res_Header = [], res_Body = Some [''ok''],
                res_Request = out\<rparr>)"

definition down_request :: request where
  "down_request = example_request\<lparr>req_Host := ''down.example''\<rparr>"

definition example_sink :: wobj where
  "example_sink = \<lparr>received = [], quota = Some 1, closes = 0\<rparr>"

definition example_dst :: header where
  "example_dst = [(''X-Old'', [''1'']), (''B'', [''0''])]"

definition example_src :: header where
  "example_src = [(''B'', [''1'', ''2'']), (''C'', [])]"

section \<open>Vocabulary for the fan-out theorems\<close>

text \<open>
  \<open>fits w n\<close>: the writer can still take \<open>n\<close> bytes; \<open>room w\<close>: the bytes a bounded
  writer can still take; \<open>feed p w\<close>: the writer after it has accepted \<open>p\<close>.
\<close>

definition fits :: "wobj \<Rightarrow> nat \<Rightarrow> bool" where
  "fits w n = (case quota w of None \<Rightarrow> True | Some q \<Rightarrow> length (received w) + n \<le> q)"

definition room :: "wobj \<Rightarrow> nat" where
  "room w = (case quota w of None \<Rightarrow> 0 | Some q \<Rightarrow> q - length (received w))"

definition feed :: "string \<Rightarrow> wobj \<Rightarrow> wobj" where
  "feed p w = w\<lparr>received := received w @ p\<rparr>"

section \<open>The path resolver: theorems\<close>

lemma example_stem: "stem example_response = ''a/b''"
  by code_simp

lemma example_no_ext: "path_Ext (stem example_response) = []"
  by code_simp

lemma example_no_content_type:
  "mimext_Ext example_env (Header_Get (res_Header example_response) ''Content-Type'') = []"
  by code_simp

lemma stem_index:
  "url_Path (req_URL (res_Request r)) = [] \<or> url_Path (req_URL (res_Request r)) = ''/''
   \<Longrightarrow> stem r = ''index''"
  by (auto simp: stem_def Trim_def)

lemma ArchiveFile_html_gzip:
  "ArchiveFile example_env
     (example_response\<lparr>res_Header := [(''Content-Type'', [''text/html'']),
                                       (''Content-Encoding'', [''gzip''])]\<rparr>)
   = ''archive/example.com/a/b.html.gz''"
  by code_simp

lemma takeWhile_no_colon:
  "CHR '':'' \<notin> set s \<Longrightarrow> takeWhile (\<lambda>c. c \<noteq> CHR '':'') s = s"
  by (induction s) auto

lemma ClientFile_layout:
  "ClientFile e t r
   = Some (ClientDir e @ PS e @ takeWhile (\<lambda>c. c \<noteq> CHR '':'') (req_RemoteAddr (res_Request r))
           @ PS e @ url_Host (req_URL (res_Request r)) @ PS e @ stem r @ PS e @ now t)"
  by (simp add: ClientFile_def Let_def SplitN_colon_2_def takeWhile_no_colon)

lemma length_decimal: "0 < w \<Longrightarrow> n < 10 ^ w \<Longrightarrow> length (decimal n) \<le> w"
proof (induction w arbitrary: n)
  case 0
  then show ?case by simp
next
  case (Suc w)
  show ?case
  proof (cases "n < 10")
    case True
    then show ?thesis by (subst decimal.simps) simp
  next
    case False
    then have "0 < w" using Suc.prems by (cases w) auto
    moreover have "n div 10 < 10 ^ w"
      using Suc.prems by (simp add: less_mult_imp_div_less mult.commute)
    ultimately have "length (decimal (n div 10)) \<le> w" by (rule Suc.IH)
    then show ?thesis using False by (subst decimal.simps) simp
  qed
qed

lemma length_zero_pad: "0 < w \<Longrightarrow> n < 10 ^ w \<Longrightarrow> length (zero_pad w n) = w"
  using length_decimal [of w n] by (simp add: zero_pad_def)

lemma now_fixed_width:
  assumes "Year t < 10000" "Month t < 100" "Day t < 100" "Hour t < 100" "Minute t < 100"
    "Second t < 100" "Nanosecond t < 1000000000"
  shows "length (now t) = 29"
  using assms by (simp add: now_def length_zero_pad)

text \<open>
  C5, as amended. When the stem has no extension and \<open>mimext.Ext\<close> returns the empty
  string, \<open>ArchiveFile\<close> still appends the dot: the path is the archive root, the host
  and the stem followed by a bare \<open>.\<close> (and by \<open>.gz\<close> for a gzip encoding).
\<close>

theorem ArchiveFile_empty_extension:
  assumes "path_Ext (stem r) = []"
    and "mimext_Ext e (Header_Get (res_Header r) ''Content-Type'') = []"
  shows "ArchiveFile e r =
           ArchiveDir e @ PS e @ url_Host (req_URL (res_Request r)) @ PS e @ stem r @ ''.''
           @ (if Header_Get (res_Header r) ''Content-Encoding'' = ''gzip'' then ''.gz'' else [])"
  using assms by (simp add: ArchiveFile_def Let_def)

theorem ArchiveFile_empty_extension_witness:
  "path_Ext (stem example_response) = []
   \<and> mimext_Ext example_env (Header_Get (res_Header example_response) ''Content-Type'') = []
   \<and> ArchiveFile example_env example_response =
       ArchiveDir example_env @ PS example_env
       @ url_Host (req_URL (res_Request example_response)) @ PS example_env
       @ stem example_response @ ''.''
       @ (if Header_Get (res_Header example_response) ''Content-Encoding'' = ''gzip''
          then ''.gz'' else [])"
  using ArchiveFile_empty_extension [OF example_no_ext example_no_content_type]
    example_no_ext example_no_content_type
  by simp

text \<open>
  C5 as stated fails: for the path \<open>/a/b\<close> and no \<open>Content-Type\<close> the archive path ends
  in a dot, it is not the stem unchanged.
\<close>

theorem ArchiveFile_trailing_dot_counterexample:
  "path_Ext (stem example_response) = []
   \<and> mimext_Ext example_env (Header_Get (res_Header example_response) ''Content-Type'') = []
   \<and> ArchiveFile example_env example_response = ''archive/example.com/a/b.''
   \<and> ArchiveFile example_env example_response \<noteq> ''archive/example.com/a/b''"
  by code_simp

text \<open>
  C6. \<open>ArchiveFile\<close> is a function of the target URL, the \<open>Content-Type\<close> and the
  \<open>Content-Encoding\<close> alone (for given archive root, separator and extension lookup): two
  exchanges that agree on these have the same archive path, whatever their method, client
  address, status, other headers or body.
\<close>

theorem ArchiveFile_deterministic:
  assumes "req_URL (res_Request r1) = req_URL (res_Request r2)"
    and "Header_Get (res_Header r1) ''Content-Type''
         = Header_Get (res_Header r2) ''Content-Type''"
    and "Header_Get (res_Header r1) ''Content-Encoding''
         = Header_Get (res_Header r2) ''Content-Encoding''"
  shows "ArchiveFile e r1 = ArchiveFile e r2"
  using assms by (simp add: ArchiveFile_def stem_def)

theorem ArchiveFile_deterministic_witness:
  "example_response \<noteq> other_response
   \<and> ArchiveFile example_env example_response = ArchiveFile example_env other_response"
proof -
  have u: "req_URL (res_Request example_response) = req_URL (res_Request other_response)"
    by (simp add: example_response_def other_response_def)
  have t: "Header_Get (res_Header example_response) ''Content-Type''
           = Header_Get (res_Header other_response) ''Content-Type''"
    by code_simp
  have c: "Header_Get (res_Header example_response) ''Content-Encoding''
           = Header_Get (res_Header other_response) ''Content-Encoding''"
    by code_simp
  have "res_StatusCode example_response \<noteq> res_StatusCode other_response"
    by (simp add: example_response_def other_response_def)
  then have "example_response \<noteq> other_response"
    by auto
  with ArchiveFile_deterministic [OF u t c] show ?thesis
    by simp
qed

text \<open>
  C7, at a client with an IPv6 address. \<open>ClientFile\<close> cuts the remote address at its
  first colon, so for \<open>[::1]:54321\<close> the client component of the path is \<open>[\<close>, not the
  host \<open>::1\<close>.
\<close>

theorem ClientFile_ipv6_remote_addr:
  "req_RemoteAddr (res_Request example_response) = ''[::1]:54321''
   \<and> ClientFile example_env example_time example_response
       = Some ''client/[/example.com/a/b/20240102-030405-000000006.bin''"
  by code_simp

section \<open>The head-only Writer: theorems\<close>

lemma Head_success:
  assumes "os_Create l (ArchiveFile e r @ ''.head'')
             (fst (Workdir (path_Dir l (ArchiveFile e r @ ''.head'')) fs)) = (fs', True)"
  shows "fst (Head e l fs r)
         = file_Close (ArchiveFile e r @ ''.head'')
             (file_Write (ArchiveFile e r @ ''.head'') (Header_Write l (res_Header r)) fs')"
  using assms by (simp add: Head_def Let_def)

lemma Head_open_failure:
  assumes "os_Create l (ArchiveFile e r @ ''.head'')
             (fst (Workdir (path_Dir l (ArchiveFile e r @ ''.head'')) fs)) = (fs', False)"
  shows "fst (Head e l fs r) = fs'"
  using assms by (simp add: Head_def Let_def)

lemma Head_example:
  "fs_files (fst (Head example_env example_lib example_filesystem
                    (example_response\<lparr>res_Header := [(''Content-Type'', [''text/html''])]\<rparr>)))
   = [(''archive/example.com/a/b.html.head'',
       \<lparr>content = ''Content-Type: text/html; '', handles = 0\<rparr>)]"
  by code_simp

lemma Head_example_denied:
  "fs_files (fst (Head example_env example_lib (example_filesystem\<lparr>fs_denied := (\<lambda>p. True)\<rparr>)
                    example_response))
   = []"
  by code_simp

text \<open>
  C9. \<open>save.Head\<close> returns the nil Sink whatever the file system and the response are:
  after it has created the \<open>.head\<close> file, written the headers and closed it, and after
  \<open>os.Create\<close> has failed alike.
\<close>

theorem Head_returns_nil:
  "snd (Head e l fs r) = None"
  by (simp add: Head_def Let_def split: prod.splits bool.splits)

section \<open>The header copy: theorems\<close>

lemma fold_Header_Del:
  "fold (\<lambda>k d. Header_Del k d) ks d
   = filter (\<lambda>p. fst p \<notin> CanonicalMIMEHeaderKey ` set ks) d"
proof (induction ks arbitrary: d)
  case Nil
  then show ?case by simp
next
  case (Cons k ks)
  have "filter (\<lambda>p. fst p \<notin> CanonicalMIMEHeaderKey ` set ks) (Header_Del k d)
        = filter (\<lambda>p. fst p \<notin> CanonicalMIMEHeaderKey ` set (k # ks)) d"
    by (auto simp: Header_Del_def AList.delete_eq intro: filter_cong)
  with Cons.IH [of "Header_Del k d"] show ?case by simp
qed

lemma delete_all_canonical:
  assumes "\<forall>k \<in> fst ` set dst. CanonicalMIMEHeaderKey k = k"
  shows "fold (\<lambda>k d. Header_Del k d) (map fst dst) dst = []"
proof -
  have "\<And>p. p \<in> set dst \<Longrightarrow> fst p \<in> CanonicalMIMEHeaderKey ` set (map fst dst)"
    using assms by (metis image_eqI list.set_map)
  then show ?thesis
    by (simp add: fold_Header_Del filter_empty_conv)
qed

lemma map_of_Header_Add:
  "map_of (Header_Add k v h)
   = (map_of h)(CanonicalMIMEHeaderKey k \<mapsto> Header_values h (CanonicalMIMEHeaderKey k) @ [v])"
  by (simp add: Header_Add_def update_conv')

lemma Header_values_Add:
  "Header_values (Header_Add k v h) k'
   = (if k' = CanonicalMIMEHeaderKey k then Header_values h k' @ [v] else Header_values h k')"
  by (simp add: Header_values_def map_of_Header_Add)

lemma map_of_fold_Header_Add:
  "map_of (fold (\<lambda>v d'. Header_Add k v d') vv d) key
   = (if vv \<noteq> [] \<and> key = CanonicalMIMEHeaderKey k
      then Some (Header_values d key @ vv) else map_of d key)"
proof (induction vv arbitrary: d)
  case Nil
  then show ?case by simp
next
  case (Cons v vv)
  show ?case
    by (simp add: Cons.IH map_of_Header_Add Header_values_Add)
qed

lemma map_of_add_entries:
  assumes "distinct (map fst src)"
    and "\<forall>k \<in> fst ` set src. CanonicalMIMEHeaderKey k = k"
  shows "map_of (fold (\<lambda>(k, vv) d. fold (\<lambda>v d'. Header_Add k v d') vv d) src d) key
         = (case map_of src key of
              None \<Rightarrow> map_of d key
            | Some vv \<Rightarrow> if vv = [] then map_of d key else Some (Header_values d key @ vv))"
  using assms
proof (induction src arbitrary: d)
  case Nil
  then show ?case by simp
next
  case (Cons p src)
  obtain k vv where p: "p = (k, vv)" by (cases p)
  let ?d = "fold (\<lambda>v d'. Header_Add k v d') vv d"
  have canon: "CanonicalMIMEHeaderKey k = k"
    using Cons.prems p by simp
  have fresh: "map_of src k = None"
    using Cons.prems p by (simp add: map_of_eq_None_iff)
  have step: "\<And>x. map_of ?d x
               = (if vv \<noteq> [] \<and> x = k then Some (Header_values d x @ vv) else map_of d x)"
    using map_of_fold_Header_Add [of k vv d] canon by simp
  have IH: "map_of (fold (\<lambda>(k, vv) d. fold (\<lambda>v d'. Header_Add k v d') vv d) src ?d) key
         = (case map_of src key of
              None \<Rightarrow> map_of ?d key
            | Some vv \<Rightarrow> if vv = [] then map_of ?d key else Some (Header_values ?d key @ vv))"
    using Cons.IH [of ?d] Cons.prems by simp
  show ?case
  proof (cases "key = k")
    case True
    then show ?thesis using IH fresh step p by (simp add: Header_values_def)
  next
    case False
    then have "map_of ?d key = map_of d key" using step by simp
    moreover from this have "Header_values ?d key = Header_values d key"
      by (simp add: Header_values_def)
    ultimately show ?thesis using IH False p by (simp split: option.splits)
  qed
qed

lemma example_src_wf: "wf_header example_src"
  by code_simp

lemma example_dst_canonical: "\<forall>k \<in> fst ` set example_dst. CanonicalMIMEHeaderKey k = k"
  by code_simp

lemma example_src_canonical: "\<forall>k \<in> fst ` set example_src. CanonicalMIMEHeaderKey k = k"
  by code_simp

text \<open>
  C10, as amended. When every key of the destination and of the source is in canonical
  form, \<open>copyHeader\<close> leaves in the destination exactly the source's entries that have at
  least one value: such a key maps to the same ordered value list, and every other key is
  absent, be it a key the destination had before or a key the source maps to no value.
\<close>

theorem copyHeader_canonical:
  assumes "wf_header src"
    and "\<forall>k \<in> fst ` set dst. CanonicalMIMEHeaderKey k = k"
    and "\<forall>k \<in> fst ` set src. CanonicalMIMEHeaderKey k = k"
  shows "map_of (copyHeader dst src) key
         = (case map_of src key of
              None \<Rightarrow> None
            | Some vv \<Rightarrow> if vv = [] then None else Some vv)"
  using map_of_add_entries [of src "[]" key] assms
  by (simp add: copyHeader_def delete_all_canonical wf_header_def Header_values_def
        split: option.splits)

theorem copyHeader_canonical_witness:
  "wf_header example_src
   \<and> map_of example_dst ''X-Old'' = Some [''1'']
   \<and> map_of (copyHeader example_dst example_src) ''X-Old'' = None
   \<and> map_of (copyHeader example_dst example_src) ''B'' = Some [''1'', ''2'']
   \<and> map_of (copyHeader example_dst example_src) ''C'' = None"
proof -
  note r = copyHeader_canonical [OF example_src_wf example_dst_canonical example_src_canonical]
  have old: "map_of example_dst ''X-Old'' = Some [''1'']"
    by code_simp
  have "map_of example_src ''X-Old'' = None"
    by code_simp
  with r [of "''X-Old''"] have gone: "map_of (copyHeader example_dst example_src) ''X-Old'' = None"
    by simp
  have "map_of example_src ''C'' = Some []"
    by code_simp
  with r [of "''C''"] have empty: "map_of (copyHeader example_dst example_src) ''C'' = None"
    by simp
  have "map_of example_src ''B'' = Some [''1'', ''2'']"
    by code_simp
  with copyHeader_canonical [OF example_src_wf example_dst_canonical example_src_canonical,
      of "''B''"]
  have "map_of (copyHeader example_dst example_src) ''B'' = Some [''1'', ''2'']"
    by simp
  with example_src_wf old gone empty show ?thesis
    by blast
qed

text \<open>
  C10 as stated fails: \<open>Del\<close> removes the canonical form of the key it is given, so a
  destination key that is not canonical survives the copy although the source lacks it.
\<close>

theorem copyHeader_keeps_noncanonical_key_counterexample:
  "copyHeader [(''x-old'', [''1''])] [] = [(''x-old'', [''1''])]"
  by code_simp

section \<open>The proxy engine: theorems\<close>

lemma canonical_Host: "CanonicalMIMEHeaderKey ''Host'' = ''Host''"
  by code_simp

text \<open>
  C8, as amended. The request handed to the transport keeps the method, the body, the
  \<open>Host\<close> field, the client address and the URL path of the inbound request; its protocol
  is \<open>HTTP/1.1\<close>, \<open>Close\<close> is false, the URL scheme is the constant \<open>http\<close> and the URL
  host is the inbound \<open>Host\<close> value. The headers are not left unchanged: the inbound
  \<open>Host\<close> value is appended to the values of the \<open>Host\<close> header; the values of every
  other key are those of the inbound request.
\<close>

theorem outbound_request:
  "req_Method (outbound req) = req_Method req
   \<and> req_Body (outbound req) = req_Body req
   \<and> req_Host (outbound req) = req_Host req
   \<and> req_RemoteAddr (outbound req) = req_RemoteAddr req
   \<and> url_Path (req_URL (outbound req)) = url_Path (req_URL req)
   \<and> req_Proto (outbound req) = ''HTTP/1.1''
   \<and> req_ProtoMajor (outbound req) = 1
   \<and> req_ProtoMinor (outbound req) = 1
   \<and> req_Close (outbound req) = False
   \<and> url_Scheme (req_URL (outbound req)) = ''http''
   \<and> url_Host (req_URL (outbound req)) = req_Host req
   \<and> Header_values (req_Header (outbound req)) ''Host''
       = Header_values (req_Header req) ''Host'' @ [req_Host req]
   \<and> (\<forall>key. key \<noteq> ''Host'' \<longrightarrow>
         Header_values (req_Header (outbound req)) key = Header_values (req_Header req) key)"
  by (simp add: outbound_def Header_values_Add canonical_Host)

theorem outbound_request_witness:
  "''Accept'' \<noteq> ''Host''
   \<and> Header_values (req_Header (outbound example_request)) ''Accept''
       = Header_values (req_Header example_request) ''Accept''
   \<and> Header_values (req_Header (outbound example_request)) ''Host''
       = Header_values (req_Header example_request) ''Host'' @ [req_Host example_request]"
  using outbound_request [of example_request] by simp

text \<open>
  C8 as stated fails: the inbound request has no header at all, the request handed to
  the transport has a \<open>Host\<close> header.
\<close>

theorem outbound_adds_Host_header_counterexample:
  "req_Header example_request = []
   \<and> req_Header (outbound example_request) = [(''Host'', [''example.com''])]"
  by code_simp

lemma ServeHTTP_transport_error:
  assumes "RoundTrip (outbound req) = Inl err"
  shows "ServeHTTP self RoundTrip wri req = (wri, [], Some (TransportError err))"
  using assms by (simp add: ServeHTTP_def)

lemma ServeHTTP_round_trip:
  assumes "RoundTrip (outbound req) = Inr r"
  shows "ServeHTTP self RoundTrip wri req
         = (client (fst (intercept self wri r)), trace (fst (intercept self wri r)),
            snd (intercept self wri r))"
  using assms by (simp add: ServeHTTP_def split: prod.splits)

lemma conn_serve_recovers:
  "conn_serve self RoundTrip wri req
   = (handled self RoundTrip (wri, req),
      (case snd (snd (ServeHTTP self RoundTrip wri req)) of None \<Rightarrow> [] | Some p \<Rightarrow> [p]),
      None)"
  by (simp add: conn_serve_def handled_def split: prod.splits option.splits)

lemma ListenAndServe_serves_all:
  assumes "alive pr"
  shows "alive (ListenAndServe self RoundTrip conns pr)
         \<and> exchanges (ListenAndServe self RoundTrip conns pr)
           = exchanges pr @ map (handled self RoundTrip) conns
         \<and> errorlog (ListenAndServe self RoundTrip conns pr)
           = errorlog pr
             @ concat (map (\<lambda>(wri, req).
                 case snd (snd (ServeHTTP self RoundTrip wri req)) of
                   None \<Rightarrow> [] | Some p \<Rightarrow> [p]) conns)"
  using assms
proof (induction conns arbitrary: pr)
  case Nil
  then show ?case by simp
next
  case (Cons c conns)
  obtain wri req where c: "c = (wri, req)" by (cases c)
  let ?pr = "pr\<lparr>alive := True,
                  errorlog := errorlog pr
                    @ (case snd (snd (ServeHTTP self RoundTrip wri req)) of
                         None \<Rightarrow> [] | Some p \<Rightarrow> [p]),
                  exchanges := exchanges pr @ [handled self RoundTrip (wri, req)]\<rparr>"
  have step: "ListenAndServe self RoundTrip (c # conns) pr
              = ListenAndServe self RoundTrip conns ?pr"
    using Cons.prems c by (simp add: conn_serve_recovers)
  have "alive ?pr" by simp
  from Cons.IH [OF this] show ?case
    unfolding step by (simp add: c)
qed

lemma example_lookup_fails: "example_transport (outbound down_request) = Inl ''no such host''"
  by code_simp

text \<open>
  C2, as amended. When the round trip of a request fails with a transport error, the
  server process is not aborted: the handler panics with the error, the server that
  \<open>Start\<close> has installed it in recovers and logs the panic, and only that exchange
  ends. Whatever connections come before and after it are served as they would be on
  their own, and a later request whose round trip succeeds goes through the
  interceptor. The failure is not reported to the client: no hook is called and nothing
  is written to the response writer of the failed exchange.
\<close>

theorem transport_failure_confined_to_its_exchange:
  assumes "RoundTrip (outbound req) = Inl err"
  shows "alive (Start self RoundTrip True (before @ (wri, req) # after))
         \<and> exchanges (Start self RoundTrip True (before @ (wri, req) # after))
           = map (handled self RoundTrip) before @ (wri, [])
             # map (handled self RoundTrip) after
         \<and> TransportError err
           \<in> set (errorlog (Start self RoundTrip True (before @ (wri, req) # after)))
         \<and> (\<forall>wri' req' r'. RoundTrip (outbound req') = Inr r' \<longrightarrow>
               handled self RoundTrip (wri', req')
               = (client (fst (intercept self wri' r')), trace (fst (intercept self wri' r'))))"
proof -
  let ?pr = "\<lparr>alive = True, errorlog = [], exchanges = []\<rparr>"
  have a: "alive ?pr" by simp
  note all = ListenAndServe_serves_all [OF a, of self RoundTrip "before @ (wri, req) # after"]
  have f: "ServeHTTP self RoundTrip wri req = (wri, [], Some (TransportError err))"
    using assms by (rule ServeHTTP_transport_error)
  then have h: "handled self RoundTrip (wri, req) = (wri, [])"
    by (simp add: handled_def)
  have "alive (Start self RoundTrip True (before @ (wri, req) # after))"
    using all by (simp add: Start_def)
  moreover have "exchanges (Start self RoundTrip True (before @ (wri, req) # after))
           = map (handled self RoundTrip) before @ (wri, [])
             # map (handled self RoundTrip) after"
    using all h by (simp add: Start_def)
  moreover have "TransportError err
           \<in> set (errorlog (Start self RoundTrip True (before @ (wri, req) # after)))"
    using all f by (simp add: Start_def)
  moreover have "\<forall>wri' req' r'. RoundTrip (outbound req') = Inr r' \<longrightarrow>
               handled self RoundTrip (wri', req')
               = (client (fst (intercept self wri' r')), trace (fst (intercept self wri' r')))"
    by (simp add: handled_def ServeHTTP_round_trip)
  ultimately show ?thesis by blast
qed

theorem transport_failure_confined_to_its_exchange_witness:
  "example_transport (outbound down_request) = Inl ''no such host''
   \<and> alive (Start example_Proxy example_transport True
              [(example_client, down_request), (example_client, example_request)])
   \<and> map (\<lambda>(w, tr). (rw_sent w, received (rw_out w)))
       (exchanges (Start example_Proxy example_transport True
                     [(example_client, down_request), (example_client, example_request)]))
     = [(None, []), (Some (200, []), ''ok'')]
   \<and> TransportError ''no such host''
     \<in> set (errorlog (Start example_Proxy example_transport True
                         [(example_client, down_request), (example_client, example_request)]))"
proof -
  note r = transport_failure_confined_to_its_exchange
      [where RoundTrip = example_transport and req = down_request
         and err = "''no such host''" and self = example_Proxy and before = "[]"
         and wri = example_client and after = "[(example_client, example_request)]",
       OF example_lookup_fails]
  have "map (\<lambda>(w, tr). (rw_sent w, received (rw_out w)))
          (map (handled example_Proxy example_transport) [] @ (example_client, [])
           # map (handled example_Proxy example_transport) [(example_client, example_request)])
        = [(None, []), (Some (200, []), ''ok'')]"
    by code_simp
  with r example_lookup_fails show ?thesis
    by simp
qed

text \<open>
  C2 as stated fails in one part: with a transport that refuses the connection the
  handler ends in a panic, and the client has been sent no status and no byte, so no error
  response reports the failure.
\<close>

theorem ServeHTTP_panics_counterexample:
  "ServeHTTP example_Proxy (\<lambda>out. Inl ''dial tcp: connection refused'') example_client
     example_request
   = (example_client, [], Some (TransportError ''dial tcp: connection refused''))
   \<and> rw_sent example_client = None
   \<and> received (rw_out example_client) = []"
  by (simp add: ServeHTTP_def example_client_def)

section \<open>The interceptor: theorems\<close>

lemma map_upt_shift:
  "map f [i..<i + length (x # xs)] = f i # map f [Suc i..<Suc i + length xs]"
  by (simp add: upt_rec)

lemma apply_Directors_trace:
  "trace (apply_Directors i ds s) = trace s @ map CallDirector [i..<i + length ds]"
proof (induction ds arbitrary: i s)
  case Nil
  then show ?case by simp
next
  case (Cons d ds)
  show ?case
    unfolding map_upt_shift by (simp add: Cons.IH)
qed

lemma apply_Directors_frame:
  "client (apply_Directors i ds s) = client s \<and> wclosers (apply_Directors i ds s) = wclosers s"
  by (induction ds arbitrary: i s) simp_all

lemma apply_Writers_trace:
  "trace (apply_Writers i ws s) = trace s @ map CallWriter [i..<i + length ws]"
proof (induction ws arbitrary: i s)
  case Nil
  then show ?case by simp
next
  case (Cons w ws)
  show ?case
    unfolding map_upt_shift by (simp add: Cons.IH split: prod.splits option.splits)
qed

lemma apply_Writers_client:
  "client (apply_Writers i ws s) = client s"
  by (induction ws arbitrary: i s) (simp_all split: prod.splits option.splits)

lemma apply_Loggers_trace:
  "trace (apply_Loggers i ls s) = trace s @ map CallLogger [i..<i + length ls]"
proof (induction ls arbitrary: i s)
  case Nil
  then show ?case by simp
next
  case (Cons l ls)
  show ?case
    unfolding map_upt_shift by (simp add: Cons.IH)
qed

lemma apply_Loggers_frame:
  "client (apply_Loggers i ls s) = client s \<and> wclosers (apply_Loggers i ls s) = wclosers s"
  by (induction ls arbitrary: i s) simp_all

lemma run_hooks_trace:
  "trace (run_hooks self dst r)
   = map CallDirector [0..<length (Directors self)] @ [CopyHeader, CallWriteHeader]
     @ map CallWriter [0..<length (Writers self)]
     @ map CallLogger [0..<length (Loggers self)]"
  by (simp add: run_hooks_def Let_def apply_Directors_trace apply_Writers_trace
        apply_Loggers_trace)

lemma multi_Write_length: "length (fst (multi_Write p ws)) = length ws"
  by (induction ws) (auto split: prod.splits bool.splits)

lemma io_Copy_length: "length (fst (io_Copy ws cs)) = length ws"
proof (induction cs arbitrary: ws)
  case Nil
  then show ?case by simp
next
  case (Cons c cs)
  show ?case
    using multi_Write_length [of c ws] Cons.IH
    by (auto split: prod.splits bool.splits)
qed

lemma fan_out_trace: "trace (fan_out s cs) = trace s @ [CopyBody]"
proof -
  obtain ws' unread where c: "io_Copy (rw_out (client s) # wclosers s) cs = (ws', unread)"
    by (cases "io_Copy (rw_out (client s) # wclosers s) cs")
  with io_Copy_length [of "rw_out (client s) # wclosers s" cs] obtain d sinks
    where "ws' = d # sinks" by (cases ws') auto
  with c show ?thesis by (simp add: fan_out_def)
qed

lemma example_body_present:
  "res_Body (res (run_hooks example_Proxy example_client example_response)) \<noteq> None"
  by code_simp

text \<open>
  C1, as amended. For every exchange whose body is not nil when the hooks are done, the
  interceptor returns and has made its calls in this order: all Directors, the header
  copy and the status, all Writers, all Loggers, the one body copy, the close of the
  body, and the close of every Sink; the Loggers run before the copy, not after it.
\<close>

theorem intercept_stage_order:
  assumes "res_Body (res (run_hooks self dst r)) \<noteq> None"
  shows "snd (intercept self dst r) = None
         \<and> trace (fst (intercept self dst r))
           = map CallDirector [0..<length (Directors self)] @ [CopyHeader, CallWriteHeader]
             @ map CallWriter [0..<length (Writers self)]
             @ map CallLogger [0..<length (Loggers self)]
             @ [CopyBody, CloseBody]
             @ map CloseSink [0..<length (wclosers (fst (intercept self dst r)))]"
  using assms
  by (auto simp: intercept_def Let_def close_wclosers_def fan_out_trace run_hooks_trace)

theorem intercept_stage_order_witness:
  "res_Body (res (run_hooks example_Proxy example_client example_response)) \<noteq> None
   \<and> (snd (intercept example_Proxy example_client example_response) = None
      \<and> trace (fst (intercept example_Proxy example_client example_response))
        = map CallDirector [0..<length (Directors example_Proxy)]
          @ [CopyHeader, CallWriteHeader]
          @ map CallWriter [0..<length (Writers example_Proxy)]
          @ map CallLogger [0..<length (Loggers example_Proxy)]
          @ [CopyBody, CloseBody]
          @ map CloseSink
              [0..<length (wclosers (fst (intercept example_Proxy example_client
                                            example_response)))])"
  by (rule conjI [OF example_body_present intercept_stage_order [OF example_body_present]])

text \<open>
  C1 as stated fails: with Directors \<open>[D1, D2]\<close>, Writers \<open>[W1, W2]\<close> and Loggers
  \<open>[L1]\<close> the call to \<open>L1\<close> comes before the body copy.
\<close>

theorem intercept_logger_before_copy_counterexample:
  "trace (fst (intercept example_Proxy example_client example_response))
   = [CallDirector 0, CallDirector 1, CopyHeader, CallWriteHeader, CallWriter 0,
      CallWriter 1, CallLogger 0, CopyBody, CloseBody, CloseSink 0]"
  by code_simp

lemma Write_fits: "fits w (length p) \<Longrightarrow> Write p w = (feed p w, True)"
  by (simp add: Write_def fits_def feed_def split: option.splits)

lemma Write_overflow:
  "\<not> fits w (length p) \<Longrightarrow> Write p w = (feed (take (room w) p) w, False)"
  by (simp add: Write_def fits_def feed_def room_def split: option.splits)

lemma fits_feed: "fits (feed p w) n = fits w (length p + n)"
  by (simp add: fits_def feed_def add.assoc split: option.splits)

lemma fits_mono: "fits w n \<Longrightarrow> m \<le> n \<Longrightarrow> fits w m"
  by (simp add: fits_def split: option.splits)

lemma fits_add_left: "fits w (m + n) \<Longrightarrow> fits w m"
  by (rule fits_mono [of w "m + n"]) simp_all

lemma room_feed: "room (feed p w) = room w - length p"
  by (simp add: room_def feed_def split: option.splits)

lemma feed_feed: "feed q (feed p w) = feed (p @ q) w"
  by (simp add: feed_def)

lemma feed_Nil: "feed [] w = w"
  by (simp add: feed_def)

lemma multi_Write_all_fit:
  "\<forall>x \<in> set ws. fits x (length p) \<Longrightarrow> multi_Write p ws = (map (feed p) ws, True)"
  by (induction ws) (simp_all add: Write_fits)

lemma multi_Write_first_failure:
  assumes "\<forall>x \<in> set pre. fits x (length p)" and "\<not> fits w (length p)"
  shows "multi_Write p (pre @ w # post)
         = (map (feed p) pre @ feed (take (room w) p) w # post, False)"
  using assms by (induction pre) (simp_all add: Write_fits Write_overflow)

lemma io_Copy_all_fit:
  assumes "\<forall>x \<in> set ws. fits x (length (concat before))"
  shows "io_Copy ws (before @ rest) = io_Copy (map (feed (concat before)) ws) rest"
  using assms
proof (induction before arbitrary: ws)
  case Nil
  then show ?case by (simp add: feed_Nil)
next
  case (Cons b before)
  show ?case
  proof (cases "b = []")
    case True
    then show ?thesis using Cons by simp
  next
    case False
    have "\<forall>x \<in> set ws. fits x (length b)"
      using Cons.prems by (auto intro: fits_add_left)
    then have w: "multi_Write b ws = (map (feed b) ws, True)"
      by (rule multi_Write_all_fit)
    have "\<forall>x \<in> set (map (feed b) ws). fits x (length (concat before))"
      using Cons.prems by (simp add: fits_feed)
    from Cons.IH [OF this] show ?thesis
      using False w by (simp add: feed_feed comp_def)
  qed
qed

lemma io_Copy_failed_write:
  assumes "\<forall>x \<in> set pre. fits x (length (concat before) + length c)"
    and "fits w (length (concat before))"
    and "\<not> fits w (length (concat before) + length c)"
    and "\<forall>x \<in> set post. fits x (length (concat before))"
  shows "io_Copy (pre @ w # post) (before @ c # after)
         = (map (feed (concat before @ c)) pre
            @ feed (concat before @ take (room w - length (concat before)) c) w
            # map (feed (concat before)) post, after)"
proof -
  let ?f = "feed (concat before)"
  have "\<forall>x \<in> set (pre @ w # post). fits x (length (concat before))"
    using assms by (auto intro: fits_add_left)
  then have start: "io_Copy (pre @ w # post) (before @ c # after)
                    = io_Copy (map ?f pre @ ?f w # map ?f post) (c # after)"
    using io_Copy_all_fit [of "pre @ w # post" before "c # after"] by simp
  have c: "c \<noteq> []"
    using assms(2,3) by auto
  have "\<forall>x \<in> set (map ?f pre). fits x (length c)"
    using assms(1) by (simp add: fits_feed)
  moreover have "\<not> fits (?f w) (length c)"
    using assms(3) by (simp add: fits_feed)
  ultimately have "multi_Write c (map ?f pre @ ?f w # map ?f post)
                   = (map (feed c) (map ?f pre) @ feed (take (room (?f w)) c) (?f w)
                      # map ?f post, False)"
    by (rule multi_Write_first_failure)
  with start c show ?thesis
    by (simp add: feed_feed room_feed comp_def)
qed

lemma example_writers:
  "rw_out (client (run_hooks example_Proxy example_client example_response))
     # wclosers (run_hooks example_Proxy example_client example_response)
   = [rw_out example_client] @ example_sink # []"
  by code_simp

lemma example_client_fits:
  "\<forall>x \<in> set [rw_out example_client]. fits x (length (concat ([] :: string list)) + length ''ab'')"
  by code_simp

lemma example_sink_fits: "fits example_sink (length (concat ([] :: string list)))"
  by code_simp

lemma example_sink_overflow:
  "\<not> fits example_sink (length (concat ([] :: string list)) + length ''ab'')"
  by code_simp

lemma example_post_fits:
  "\<forall>x \<in> set ([] :: wobj list). fits x (length (concat ([] :: string list)))"
  by simp

text \<open>
  C3, as amended. The copy writes each chunk to the client first and then to the Sinks
  in Writer order, and it stops at the first write that fails: the destinations before
  the failing one have received the body up to and including the current chunk, the
  failing one has received what fitted, the destinations after it have received the body
  up to the chunk before, and the chunks that follow are delivered to nobody.
\<close>

theorem fan_out_stops_at_failed_write:
  assumes "rw_out (client s) # wclosers s = pre @ w # post"
    and "\<forall>x \<in> set pre. fits x (length (concat before) + length c)"
    and "fits w (length (concat before))"
    and "\<not> fits w (length (concat before) + length c)"
    and "\<forall>x \<in> set post. fits x (length (concat before))"
  shows "rw_out (client (fan_out s (before @ c # after)))
           # wclosers (fan_out s (before @ c # after))
         = map (feed (concat before @ c)) pre
           @ feed (concat before @ take (room w - length (concat before)) c) w
           # map (feed (concat before)) post
         \<and> res_Body (res (fan_out s (before @ c # after))) = Some after"
proof -
  have "io_Copy (rw_out (client s) # wclosers s) (before @ c # after)
         = (map (feed (concat before @ c)) pre
            @ feed (concat before @ take (room w - length (concat before)) c) w
            # map (feed (concat before)) post, after)"
    unfolding assms(1) using assms(2-5) by (rule io_Copy_failed_write)
  then show ?thesis
    by (cases pre) (simp_all add: fan_out_def)
qed

theorem fan_out_stops_at_failed_write_witness:
  "rw_out (client (run_hooks example_Proxy example_client example_response))
     # wclosers (run_hooks example_Proxy example_client example_response)
   = [rw_out example_client] @ example_sink # []
   \<and> fits (rw_out example_client) (length (concat ([] :: string list)) + length ''ab'')
   \<and> fits example_sink (length (concat ([] :: string list)))
   \<and> \<not> fits example_sink (length (concat ([] :: string list)) + length ''ab'')
   \<and> map received
       (rw_out (client (fan_out (run_hooks example_Proxy example_client example_response)
                          ([] @ ''ab'' # [''cd''])))
        # wclosers (fan_out (run_hooks example_Proxy example_client example_response)
                      ([] @ ''ab'' # [''cd''])))
     = [''ab'', ''a'']
   \<and> res_Body (res (fan_out (run_hooks example_Proxy example_client example_response)
                       ([] @ ''ab'' # [''cd''])))
     = Some [''cd'']"
proof -
  note r = fan_out_stops_at_failed_write [OF example_writers example_client_fits
      example_sink_fits example_sink_overflow example_post_fits, of "[''cd'']"]
  have "map received
          (map (feed (concat ([] :: string list) @ ''ab'')) [rw_out example_client]
           @ feed (concat ([] :: string list)
                   @ take (room example_sink - length (concat ([] :: string list))) ''ab'')
               example_sink
           # map (feed (concat ([] :: string list))) [])
        = [''ab'', ''a'']"
    by code_simp
  with r have "map received
       (rw_out (client (fan_out (run_hooks example_Proxy example_client example_response)
                          ([] @ ''ab'' # [''cd''])))
        # wclosers (fan_out (run_hooks example_Proxy example_client example_response)
                      ([] @ ''ab'' # [''cd''])))
     = [''ab'', ''a'']"
    by (simp only:)
  moreover have "fits (rw_out example_client)
                   (length (concat ([] :: string list)) + length ''ab'')"
    using example_client_fits by simp
  ultimately show ?thesis
    using r example_writers example_sink_fits example_sink_overflow by blast
qed

text \<open>
  C3 as stated fails: the body is \<open>abcd\<close> in two chunks and the Sink of \<open>W1\<close> fails in the
  first; the client receives \<open>ab\<close> only.
\<close>

theorem fan_out_sink_failure_counterexample:
  "res_Body example_response = Some [''ab'', ''cd'']
   \<and> received (rw_out (client (fst (intercept example_Proxy example_client
                                      example_response)))) = ''ab''
   \<and> map received (wclosers (fst (intercept example_Proxy example_client
                                     example_response))) = [''a'']"
  by code_simp

lemma Write_closes: "closes (fst (Write p w)) = closes w"
  by (simp add: Write_def split: option.splits)

lemma multi_Write_closes: "map closes (fst (multi_Write p ws)) = map closes ws"
proof (induction ws)
  case Nil
  then show ?case by simp
next
  case (Cons w ws)
  then show ?case
    using Write_closes [of p w] by (auto split: prod.splits bool.splits)
qed

lemma io_Copy_closes: "map closes (fst (io_Copy ws cs)) = map closes ws"
proof (induction cs arbitrary: ws)
  case Nil
  then show ?case by simp
next
  case (Cons c cs)
  show ?case
    using multi_Write_closes [of c ws] Cons.IH
    by (auto split: prod.splits bool.splits)
qed

lemma fan_out_closes: "map closes (wclosers (fan_out s cs)) = map closes (wclosers s)"
proof -
  obtain ws' unread where c: "io_Copy (rw_out (client s) # wclosers s) cs = (ws', unread)"
    by (cases "io_Copy (rw_out (client s) # wclosers s) cs")
  with io_Copy_closes [of "rw_out (client s) # wclosers s" cs]
  have "map closes ws' = closes (rw_out (client s)) # map closes (wclosers s)"
    by simp
  then obtain d sinks where "ws' = d # sinks" "map closes sinks = map closes (wclosers s)"
    by (cases ws') auto
  with c show ?thesis by (simp add: fan_out_def)
qed

lemma intercept_closes_each_sink_once:
  assumes "res_Body (res (run_hooks self dst r)) \<noteq> None"
  shows "map closes (wclosers (fst (intercept self dst r)))
         = map Suc (map closes (wclosers (run_hooks self dst r)))"
proof -
  obtain chunks where b: "res_Body (res (run_hooks self dst r)) = Some chunks"
    using assms by auto
  let ?s = "fan_out (run_hooks self dst r) chunks"
  have "wclosers (fst (intercept self dst r)) = map Close (wclosers ?s)"
    using b by (simp add: intercept_def Let_def close_wclosers_def)
  moreover have "map closes (map Close (wclosers ?s)) = map Suc (map closes (wclosers ?s))"
    by (simp add: Close_def)
  ultimately show ?thesis
    by (simp only: fan_out_closes)
qed

text \<open>
  C4, at a response whose body is nil. The Writers and the Logger have run and \<open>W1\<close> has
  returned a Sink; \<open>res.Body.Close()\<close> then panics, and the Sink has not been closed.
\<close>

theorem intercept_nil_body:
  "snd (intercept example_Proxy example_client (example_response\<lparr>res_Body := None\<rparr>))
   = Some NilBody
   \<and> map closes (wclosers (fst (intercept example_Proxy example_client
                                  (example_response\<lparr>res_Body := None\<rparr>)))) = [0]
   \<and> trace (fst (intercept example_Proxy example_client
                    (example_response\<lparr>res_Body := None\<rparr>)))
     = [CallDirector 0, CallDirector 1, CopyHeader, CallWriteHeader, CallWriter 0,
        CallWriter 1, CallLogger 0]"
  by code_simp

end
